theory Spec2Isabelle
  imports Complex_Main "HOL-Library.AList" "HOL-Library.Sublist"
begin

section \<open>Common data: errors, metric mappings, the training log\<close>

text \<open>
  Python exceptions are values. Every \<open>raise\<close> and every failing call of a collaborator
  is an \<open>Inl\<close> branch of a result of type \<open>error + 'a\<close>.
\<close>

datatype error =
    AttributeError string
  | KeyError string
  | TypeError
  | ValueError string
  | RuntimeError
  | OSError

text \<open>
  Python floats are modelled as reals (no NaN, no rounding). A metric mapping as returned
  by the evaluator is an insertion-ordered dictionary from names to floats: an association
  list whose keys are distinct.
\<close>

type_synonym metric_map = "(string \<times> real) list"

text \<open>
  \<open>TrainingMonitor.current_log\<close>, with the four keys that \<open>log_epoch\<close>,
  \<open>_plot_progress\<close> and \<open>get_best_epoch\<close> read: \<open>"epochs"\<close>, \<open>"train_loss"\<close>,
  \<open>"val_loss"\<close> and \<open>"metrics"\<close>. The last is a dictionary from metric name to its series;
  \<open>_plot_progress\<close> iterates over its items, so it is an association list in insertion
  order, whose keys are distinct.
\<close>

record training_log =
  epochs :: "int list"
  train_loss :: "real list"
  val_loss :: "real list"
  metrics :: "(string \<times> real list) list"

section \<open>\<open>TrainingMonitor.get_best_epoch\<close>\<close>

text \<open>
  \<open>numpy.argmax\<close> on a one-dimensional sequence: a left-to-right scan that keeps the index
  of the first occurrence of the largest value; it raises \<open>ValueError\<close> on an empty sequence.
\<close>

fun argmax_scan :: "nat \<Rightarrow> real \<Rightarrow> nat \<Rightarrow> real list \<Rightarrow> nat" where
  "argmax_scan best bv i [] = best"
| "argmax_scan best bv i (x # xs) =
     (if bv < x then argmax_scan i x (Suc i) xs else argmax_scan best bv (Suc i) xs)"

definition np_argmax :: "real list \<Rightarrow> error + nat" where
  "np_argmax xs =
     (case xs of
        [] \<Rightarrow> Inl (ValueError ''attempt to get argmax of an empty sequence'')
      | x # rest \<Rightarrow> Inr (argmax_scan 0 x 1 rest))"

text \<open>
  \<^verbatim>\<open>
  def get_best_epoch(self, metric="accuracy"):
      if not self.current_log["metrics"].get(metric):
          return -1
      return int(np.argmax(self.current_log["metrics"][metric])) + 1
  \<close>
  \<open>.get\<close> yields \<open>None\<close> for a missing name; \<open>None\<close> and the empty list are both falsy.
\<close>

definition get_best_epoch :: "training_log \<Rightarrow> string \<Rightarrow> error + int" where
  "get_best_epoch lg metric =
     (case map_of (metrics lg) metric of
        None \<Rightarrow> Inr (- 1)
      | Some xs \<Rightarrow>
          if xs = [] then Inr (- 1)
          else (case np_argmax xs of Inl e \<Rightarrow> Inl e | Inr i \<Rightarrow> Inr (int i + 1)))"

lemma argmax_scan_first_max:
  assumes "best < length ps" and "ps ! best = bv"
    and "\<forall>j<length ps. ps ! j \<le> bv" and "\<forall>j<best. ps ! j < bv"
  shows "argmax_scan best bv (length ps) xs < length (ps @ xs)
       \<and> (\<forall>j<length (ps @ xs). (ps @ xs) ! j \<le> (ps @ xs) ! argmax_scan best bv (length ps) xs)
       \<and> (\<forall>j<argmax_scan best bv (length ps) xs.
             (ps @ xs) ! j < (ps @ xs) ! argmax_scan best bv (length ps) xs)"
  using assms
proof (induction xs arbitrary: ps best bv)
  case Nil
  then show ?case by simp
next
  case (Cons x xs)
  let ?qs = "ps @ [x]"
  have len: "length ?qs = Suc (length ps)" by simp
  show ?case
  proof (cases "bv < x")
    case True
    have a1: "length ps < length ?qs" by simp
    have a2: "?qs ! length ps = x" by simp
    have a3: "\<forall>j<length ?qs. ?qs ! j \<le> x"
    proof (intro allI impI)
      fix j assume "j < length ?qs"
      then consider "j < length ps" | "j = length ps" by force
      then show "?qs ! j \<le> x"
      proof cases
        case 1
        with Cons.prems(3) have "ps ! j \<le> bv" by simp
        with True 1 show ?thesis by (simp add: nth_append)
      next
        case 2
        then show ?thesis by simp
      qed
    qed
    have a4: "\<forall>j<length ps. ?qs ! j < x"
    proof (intro allI impI)
      fix j assume "j < length ps"
      moreover from this Cons.prems(3) have "ps ! j \<le> bv" by simp
      ultimately show "?qs ! j < x" using True by (simp add: nth_append)
    qed
    from Cons.IH [OF a1 a2 a3 a4] True show ?thesis by (simp add: len)
  next
    case False
    have b1: "best < length ?qs" using Cons.prems(1) by simp
    have b2: "?qs ! best = bv" using Cons.prems(1,2) by (simp add: nth_append)
    have b3: "\<forall>j<length ?qs. ?qs ! j \<le> bv"
    proof (intro allI impI)
      fix j assume "j < length ?qs"
      then consider "j < length ps" | "j = length ps" by force
      then show "?qs ! j \<le> bv"
      proof cases
        case 1
        with Cons.prems(3) show ?thesis by (simp add: nth_append)
      next
        case 2
        with False show ?thesis by simp
      qed
    qed
    have b4: "\<forall>j<best. ?qs ! j < bv"
      using Cons.prems(1,4) by (simp add: nth_append)
    from Cons.IH [OF b1 b2 b3 b4] False show ?thesis by (simp add: len)
  qed
qed

lemma np_argmax_first_max:
  assumes "xs \<noteq> []"
  shows "\<exists>i. np_argmax xs = Inr i \<and> i < length xs \<and> xs ! i = Max (set xs)
           \<and> (\<forall>j<i. xs ! j < xs ! i)"
proof -
  from assms obtain x rest where xs: "xs = x # rest" by (cases xs) auto
  let ?i = "argmax_scan 0 x 1 rest"
  have "argmax_scan 0 x (length [x]) rest < length ([x] @ rest)
       \<and> (\<forall>j<length ([x] @ rest). ([x] @ rest) ! j \<le> ([x] @ rest) ! argmax_scan 0 x (length [x]) rest)
       \<and> (\<forall>j<argmax_scan 0 x (length [x]) rest.
             ([x] @ rest) ! j < ([x] @ rest) ! argmax_scan 0 x (length [x]) rest)"
    by (rule argmax_scan_first_max) simp_all
  then have r: "?i < length xs" and le: "\<forall>j<length xs. xs ! j \<le> xs ! ?i"
    and lt: "\<forall>j<?i. xs ! j < xs ! ?i"
    by (simp_all add: xs)
  have "Max (set xs) = xs ! ?i"
  proof (rule Max_eqI)
    show "finite (set xs)" by simp
    show "xs ! ?i \<in> set xs" using r by simp
    fix y assume "y \<in> set xs"
    then obtain j where "j < length xs" "xs ! j = y" by (auto simp: in_set_conv_nth)
    with le show "y \<le> xs ! ?i" by auto
  qed
  with r lt show ?thesis by (simp add: np_argmax_def xs)
qed

text \<open>
  Claim C3. For every metric name, \<open>get_best_epoch\<close> returns \<open>-1\<close> when the metric has no
  recorded values (the name is absent or its series is empty); otherwise it returns, without
  raising, the smallest 1-based position at which the series attains its maximum: the
  value there is the maximum and every earlier value is strictly smaller. The series
  \<open>[0.5, 0.9, 0.9, 0.3]\<close> yields 2.
\<close>

theorem get_best_epoch_stable_argmax:
  "(map_of (metrics lg) metric = None \<or> map_of (metrics lg) metric = Some [] \<longrightarrow>
      get_best_epoch lg metric = Inr (- 1))
 \<and> (\<forall>xs. map_of (metrics lg) metric = Some xs \<and> xs \<noteq> [] \<longrightarrow>
      (\<exists>i<length xs. get_best_epoch lg metric = Inr (int i + 1)
          \<and> xs ! i = Max (set xs) \<and> (\<forall>j<i. xs ! j < xs ! i)))
 \<and> (map_of (metrics lg) metric = Some [0.5, 0.9, 0.9, 0.3] \<longrightarrow> get_best_epoch lg metric = Inr 2)"
proof (intro conjI allI impI)
  assume "map_of (metrics lg) metric = None \<or> map_of (metrics lg) metric = Some []"
  then show "get_best_epoch lg metric = Inr (- 1)"
    by (auto simp: get_best_epoch_def)
next
  fix xs assume h: "map_of (metrics lg) metric = Some xs \<and> xs \<noteq> []"
  with np_argmax_first_max [of xs] obtain i where
    "np_argmax xs = Inr i" "i < length xs" "xs ! i = Max (set xs)" "\<forall>j<i. xs ! j < xs ! i"
    by blast
  with h show "\<exists>i<length xs. get_best_epoch lg metric = Inr (int i + 1)
          \<and> xs ! i = Max (set xs) \<and> (\<forall>j<i. xs ! j < xs ! i)"
    by (auto simp: get_best_epoch_def)
next
  assume "map_of (metrics lg) metric = Some [0.5, 0.9, 0.9, 0.3]"
  then show "get_best_epoch lg metric = Inr 2"
    by (simp add: get_best_epoch_def np_argmax_def)
qed

theorem get_best_epoch_stable_argmax_witness:
  "get_best_epoch \<lparr>epochs = [1, 2, 3, 4], train_loss = [4, 3, 2, 1], val_loss = [],
       metrics = [(''accuracy'', [0.5, 0.9, 0.9, 0.3]), (''bleu'', [])]\<rparr> ''accuracy'' = Inr 2
 \<and> get_best_epoch \<lparr>epochs = [1, 2, 3, 4], train_loss = [4, 3, 2, 1], val_loss = [],
       metrics = [(''accuracy'', [0.5, 0.9, 0.9, 0.3]), (''bleu'', [])]\<rparr> ''bleu'' = Inr (- 1)"
  using get_best_epoch_stable_argmax
      [of "\<lparr>epochs = [1, 2, 3, 4], train_loss = [4, 3, 2, 1], val_loss = [],
             metrics = [(''accuracy'', [0.5, 0.9, 0.9, 0.3]), (''bleu'', [])]\<rparr>" "''accuracy''"]
    get_best_epoch_stable_argmax
      [of "\<lparr>epochs = [1, 2, 3, 4], train_loss = [4, 3, 2, 1], val_loss = [],
             metrics = [(''accuracy'', [0.5, 0.9, 0.9, 0.3]), (''bleu'', [])]\<rparr>" "''bleu''"]
  by simp

section \<open>\<open>Sin.evaluate\<close>\<close>

text \<open>
  \<^verbatim>\<open>
  def evaluate(self, dataset, sample_size=100):
      if not dataset:
          return {}
      return self.evaluator.evaluate_dataset(dataset, sample_size)
  \<close>
  A dataset argument is \<open>None\<close> or a sequence of samples; \<open>None\<close> and the empty sequence are
  falsy. The evaluator is a collaborator: \<open>ev\<close> maps the live model's state, the dataset and
  the sample size to a metric mapping or an exception. Its invocations are recorded in a
  call list that is threaded through, so that "the evaluator was not called" is a
  statement about that list.
\<close>

type_synonym ('m, 'a) evaluator = "'m \<Rightarrow> 'a list \<Rightarrow> int \<Rightarrow> error + metric_map"

type_synonym 'a eval_calls = "('a list \<times> int) list"

definition evaluate ::
  "('m, 'a) evaluator \<Rightarrow> 'm \<Rightarrow> 'a eval_calls \<Rightarrow> 'a list option \<Rightarrow> int
     \<Rightarrow> (error + metric_map) \<times> 'a eval_calls" where
  "evaluate ev m calls dataset sample_size =
     (case dataset of
        None \<Rightarrow> (Inr [], calls)
      | Some d \<Rightarrow>
          if d = [] then (Inr [], calls)
          else (ev m d sample_size, calls @ [(d, sample_size)]))"

text \<open>
  Claim C9. For every falsy dataset argument (\<open>None\<close> or empty) \<open>evaluate\<close> returns the
  empty mapping and leaves the evaluator's call list as it was, whatever the evaluator
  would have answered; for a non-empty dataset it returns the evaluator's answer and
  records exactly one call. So the evaluator is called if and only if the dataset is
  non-empty.
\<close>

theorem evaluate_falsy_skips_evaluator:
  "(dataset = None \<or> dataset = Some [] \<longrightarrow>
      evaluate ev m calls dataset n = (Inr [], calls))
 \<and> (\<forall>d. dataset = Some d \<and> d \<noteq> [] \<longrightarrow>
      evaluate ev m calls dataset n = (ev m d n, calls @ [(d, n)]))
 \<and> (snd (evaluate ev m calls dataset n) \<noteq> calls \<longleftrightarrow> (\<exists>d. dataset = Some d \<and> d \<noteq> []))"
  by (auto simp: evaluate_def split: option.splits)

theorem evaluate_falsy_skips_evaluator_witness:
  "evaluate (\<lambda>m d n. Inl RuntimeError) (0::nat) [] (None :: nat list option) 100 = (Inr [], [])
 \<and> evaluate (\<lambda>m d n. Inl RuntimeError) (0::nat) [] (Some ([]::nat list)) 100 = (Inr [], [])
 \<and> evaluate (\<lambda>m d n. Inr [(''accuracy'', 0.5)]) (0::nat) [] (Some [7::nat]) 100
      = (Inr [(''accuracy'', 0.5)], [([7], 100)])"
  using evaluate_falsy_skips_evaluator
      [of "None :: nat list option" "\<lambda>m d n. Inl RuntimeError" "0::nat" "[]" 100]
    evaluate_falsy_skips_evaluator
      [of "Some ([]::nat list)" "\<lambda>m d n. Inl RuntimeError" "0::nat" "[]" 100]
    evaluate_falsy_skips_evaluator
      [of "Some [7::nat]" "\<lambda>m d n. Inr [(''accuracy'', 0.5)]" "0::nat" "[]" 100]
  by simp

section \<open>\<open>TrainingMonitor.log_epoch\<close>\<close>

text \<open>
  The loop over \<open>val_metrics.items()\<close>: a value is appended only where the name is already
  a key of \<open>current_log["metrics"]\<close>; no branch ever adds a key.
\<close>

fun append_tracked :: "metric_map \<Rightarrow> (string \<times> real list) list \<Rightarrow> (string \<times> real list) list" where
  "append_tracked [] ms = ms"
| "append_tracked ((metric, v) # rest) ms =
     append_tracked rest
       (case map_of ms metric of
          None \<Rightarrow> ms
        | Some series \<Rightarrow> AList.update metric (series @ [v]) ms)"

text \<open>
  \<^verbatim>\<open>
  def _save_log(self):
      with open(self.log_dir / "training_log.json", "w") as f:
          json.dump(self.current_log, f, indent=2)
  \<close>
  The log holds only lists of numbers under string keys, which \<open>json.dump\<close> always
  serialises; what can raise is opening and writing the file. \<open>write_log\<close> is that effect:
  for the log written, the exception raised, if any.
\<close>

definition save_log :: "(training_log \<Rightarrow> error option) \<Rightarrow> training_log \<Rightarrow> error option" where
  "save_log write_log lg = write_log lg"

text \<open>
  \<open>plt.plot(x, y)\<close> raises \<open>ValueError\<close> when \<open>x\<close> and \<open>y\<close> differ in length.
\<close>

definition plt_plot :: "int list \<Rightarrow> real list \<Rightarrow> error option" where
  "plt_plot xs ys =
     (if length xs = length ys then None
      else Some (ValueError ''x and y must have same first dimension''))"

text \<open>
  The loop of the second panel: every non-empty series is plotted against the epochs.
\<close>

fun plot_metrics :: "int list \<Rightarrow> (string \<times> real list) list \<Rightarrow> error option" where
  "plot_metrics xs [] = None"
| "plot_metrics xs ((metric, vals) # rest) =
     (if vals \<noteq> [] then
        (case plt_plot xs vals of
           Some e \<Rightarrow> Some e
         | None \<Rightarrow> plot_metrics xs rest)
      else plot_metrics xs rest)"

text \<open>
  \<^verbatim>\<open>
  def _plot_progress(self):
      plt.figure(figsize=(12, 6))
      plt.subplot(1, 2, 1)
      plt.plot(self.current_log["epochs"], self.current_log["train_loss"], label="Train")
      if self.current_log["val_loss"]:
          plt.plot(self.current_log["epochs"], self.current_log["val_loss"], label="Val")
      ...
      plt.subplot(1, 2, 2)
      for metric, values in self.current_log["metrics"].items():
          if values:
              plt.plot(self.current_log["epochs"], values, label=metric)
      ...
      plt.savefig(self.log_dir / "training_progress.png")
      plt.close()
  \<close>
  \<open>savefig\<close> is the effect of writing the image: the exception raised, if any.
\<close>

definition plot_progress :: "(training_log \<Rightarrow> error option) \<Rightarrow> training_log \<Rightarrow> error option" where
  "plot_progress savefig lg =
     (case plt_plot (epochs lg) (train_loss lg) of
        Some e \<Rightarrow> Some e
      | None \<Rightarrow>
          (case (if val_loss lg \<noteq> [] then plt_plot (epochs lg) (val_loss lg) else None) of
             Some e \<Rightarrow> Some e
           | None \<Rightarrow>
               (case plot_metrics (epochs lg) (metrics lg) of
                  Some e \<Rightarrow> Some e
                | None \<Rightarrow> savefig lg)))"

text \<open>
  \<^verbatim>\<open>
  def log_epoch(self, epoch, train_loss, val_metrics=None):
      try:
          self.current_log["epochs"].append(epoch)
          self.current_log["train_loss"].append(train_loss)
          if val_metrics:
              for metric, value in val_metrics.items():
                  if metric in self.current_log["metrics"]:
                      self.current_log["metrics"][metric].append(value)
          self._save_log()
          self._plot_progress()
      except Exception as e:
          self.logger.error(...)
          raise
  \<close>
  The log is mutated in place before it is saved and plotted, so the updated log is
  returned together with the exception, if any.
\<close>

definition log_epoch ::
  "(training_log \<Rightarrow> error option) \<Rightarrow> (training_log \<Rightarrow> error option) \<Rightarrow> training_log
     \<Rightarrow> int \<Rightarrow> real \<Rightarrow> metric_map option \<Rightarrow> training_log \<times> error option" where
  "log_epoch write_log savefig lg epoch loss val_metrics =
     (let lg1 = lg\<lparr>epochs := epochs lg @ [epoch]\<rparr>;
          lg2 = lg1\<lparr>train_loss := train_loss lg1 @ [loss]\<rparr>;
          lg3 = (case val_metrics of
                   None \<Rightarrow> lg2
                 | Some vm \<Rightarrow>
                     if vm = [] then lg2
                     else lg2\<lparr>metrics := append_tracked vm (metrics lg2)\<rparr>)
      in case save_log write_log lg3 of
           Some e \<Rightarrow> (lg3, Some e)
         | None \<Rightarrow>
             (case plot_progress savefig lg3 of
                Some e \<Rightarrow> (lg3, Some e)
              | None \<Rightarrow> (lg3, None)))"

lemma append_tracked_keys: "map fst (append_tracked vm ms) = map fst ms"
proof (induction vm arbitrary: ms)
  case Nil
  then show ?case by simp
next
  case (Cons p vm)
  obtain k v where p: "p = (k, v)" by (cases p)
  show ?case
  proof (cases "map_of ms k")
    case None
    with Cons.IH [of ms] p show ?thesis by simp
  next
    case (Some series)
    then have "k \<in> fst ` set ms" by (auto dest: map_of_SomeD intro: rev_image_eqI)
    then have keys: "map fst (AList.update k (series @ [v]) ms) = map fst ms"
      by (simp add: update_keys)
    from Some p have "append_tracked (p # vm) ms
        = append_tracked vm (AList.update k (series @ [v]) ms)"
      by simp
    with Cons.IH [of "AList.update k (series @ [v]) ms"] keys show ?thesis by (simp only:)
  qed
qed

lemma append_tracked_dom: "dom (map_of (append_tracked vm ms)) = dom (map_of ms)"
  using append_tracked_keys [of vm ms] by (simp only: dom_map_of_conv_image_fst set_map [symmetric])

lemma append_tracked_untracked:
  "map_of ms k = None \<Longrightarrow> map_of (append_tracked vm ms) k = None"
  using append_tracked_dom [of vm ms] by (metis domIff)

lemma append_tracked_absent:
  "k \<notin> fst ` set vm \<Longrightarrow> map_of (append_tracked vm ms) k = map_of ms k"
proof (induction vm arbitrary: ms)
  case Nil
  then show ?case by simp
next
  case (Cons p vm)
  obtain k' v where p: "p = (k', v)" by (cases p)
  with Cons.prems have ne: "k' \<noteq> k" and rest: "k \<notin> fst ` set vm" by auto
  show ?case
  proof (cases "map_of ms k'")
    case None
    with Cons.IH [OF rest, of ms] p show ?thesis by simp
  next
    case (Some series)
    from Cons.IH [OF rest, of "AList.update k' (series @ [v]) ms"] ne
    have "map_of (append_tracked vm (AList.update k' (series @ [v]) ms)) k = map_of ms k"
      by (simp add: update_conv')
    with Some p show ?thesis by simp
  qed
qed

lemma append_tracked_present:
  "distinct (map fst vm) \<Longrightarrow> map_of vm k = Some v \<Longrightarrow> map_of ms k = Some series
     \<Longrightarrow> map_of (append_tracked vm ms) k = Some (series @ [v])"
proof (induction vm arbitrary: ms)
  case Nil
  then show ?case by simp
next
  case (Cons p vm)
  obtain k' v' where p: "p = (k', v')" by (cases p)
  show ?case
  proof (cases "k' = k")
    case True
    with Cons.prems p have v: "v' = v" and notin: "k \<notin> fst ` set vm" by auto
    from append_tracked_absent [OF notin, of "AList.update k (series @ [v]) ms"]
    have "map_of (append_tracked vm (AList.update k (series @ [v]) ms)) k = Some (series @ [v])"
      by (simp add: update_conv')
    with True p v Cons.prems(3) show ?thesis by simp
  next
    case False
    with Cons.prems p have d: "distinct (map fst vm)" and m: "map_of vm k = Some v" by auto
    show ?thesis
    proof (cases "map_of ms k'")
      case None
      with Cons.IH [of ms, OF d m Cons.prems(3)] p show ?thesis by simp
    next
      case (Some s')
      from False Cons.prems(3) have here: "map_of (AList.update k' (s' @ [v']) ms) k = Some series"
        by (simp add: update_conv')
      from Some p have "append_tracked (p # vm) ms
          = append_tracked vm (AList.update k' (s' @ [v']) ms)"
        by simp
      with Cons.IH [of "AList.update k' (s' @ [v']) ms", OF d m here]
      show ?thesis by (simp only:)
    qed
  qed
qed

lemma log_epoch_metrics:
  "metrics (fst (log_epoch wr sf lg epoch loss val_metrics)) =
     (case val_metrics of None \<Rightarrow> metrics lg | Some vm \<Rightarrow> append_tracked vm (metrics lg))"
  by (cases val_metrics; cases "the val_metrics")
     (simp_all add: log_epoch_def Let_def split: option.splits)

text \<open>An effect that never raises, for evaluating the code at concrete inputs.\<close>

definition succeeds :: "'a \<Rightarrow> error option" where
  "succeeds x = None"

text \<open>
  Claim C2, as stated, fails: nothing in \<open>log_epoch\<close> discovers names. On a log that tracks
  no metric name, a first call with the non-empty mapping \<open>{"accuracy": 0.5}\<close> leaves
  \<open>"accuracy"\<close> untracked, and a second call with \<open>{"accuracy": 0.9}\<close> appends nothing.
\<close>

theorem log_epoch_discovers_no_names_counterexample:
  "map_of (metrics (fst (log_epoch succeeds succeeds
       \<lparr>epochs = [], train_loss = [], val_loss = [], metrics = []\<rparr>
       1 1 (Some [(''accuracy'', 0.5)])))) ''accuracy'' = None
 \<and> map_of (metrics (fst (log_epoch succeeds succeeds
       (fst (log_epoch succeeds succeeds
          \<lparr>epochs = [], train_loss = [], val_loss = [], metrics = []\<rparr>
          1 1 (Some [(''accuracy'', 0.5)])))
       2 1 (Some [(''accuracy'', 0.9)])))) ''accuracy'' = None"
  by (simp add: log_epoch_def save_log_def plot_progress_def plt_plot_def succeeds_def)

text \<open>
  Claim C2, amended. The tracked metric names are the keys that the log's metrics mapping
  has before the call, and \<open>log_epoch\<close> never adds or removes one, the first call with
  non-empty metrics included. On every call each (name, value) pair whose name is tracked
  has its value appended to that name's series; pairs with other names are dropped, and
  a tracked name that the call does not mention keeps its series. This holds whether or
  not saving or plotting raises afterwards.
\<close>

theorem log_epoch_tracked_names_fixed:
  "map fst (metrics (fst (log_epoch wr sf lg epoch loss val_metrics))) = map fst (metrics lg)
 \<and> dom (map_of (metrics (fst (log_epoch wr sf lg epoch loss val_metrics))))
      = dom (map_of (metrics lg))
 \<and> (val_metrics = None \<longrightarrow>
      metrics (fst (log_epoch wr sf lg epoch loss val_metrics)) = metrics lg)
 \<and> (\<forall>vm. val_metrics = Some vm \<and> distinct (map fst vm) \<longrightarrow>
      (\<forall>k. map_of (metrics (fst (log_epoch wr sf lg epoch loss val_metrics))) k =
         (case map_of (metrics lg) k of
            None \<Rightarrow> None
          | Some series \<Rightarrow>
              (case map_of vm k of None \<Rightarrow> Some series | Some v \<Rightarrow> Some (series @ [v])))))"
proof (intro conjI allI impI)
  show "map fst (metrics (fst (log_epoch wr sf lg epoch loss val_metrics))) = map fst (metrics lg)"
    by (simp add: log_epoch_metrics append_tracked_keys split: option.splits)
next
  show "dom (map_of (metrics (fst (log_epoch wr sf lg epoch loss val_metrics))))
      = dom (map_of (metrics lg))"
    by (simp add: log_epoch_metrics append_tracked_dom split: option.splits)
next
  assume "val_metrics = None"
  then show "metrics (fst (log_epoch wr sf lg epoch loss val_metrics)) = metrics lg"
    by (simp add: log_epoch_metrics)
next
  fix vm k
  assume h: "val_metrics = Some vm \<and> distinct (map fst vm)"
  then have eq: "map_of (metrics (fst (log_epoch wr sf lg epoch loss val_metrics))) k
      = map_of (append_tracked vm (metrics lg)) k"
    by (simp add: log_epoch_metrics)
  show "map_of (metrics (fst (log_epoch wr sf lg epoch loss val_metrics))) k =
         (case map_of (metrics lg) k of
            None \<Rightarrow> None
          | Some series \<Rightarrow>
              (case map_of vm k of None \<Rightarrow> Some series | Some v \<Rightarrow> Some (series @ [v])))"
  proof (cases "map_of (metrics lg) k")
    case None
    then show ?thesis using eq by (simp add: append_tracked_untracked)
  next
    case (Some series)
    show ?thesis
    proof (cases "map_of vm k")
      case None
      then have "k \<notin> fst ` set vm" by (simp add: map_of_eq_None_iff)
      then show ?thesis using eq Some None by (simp add: append_tracked_absent)
    next
      case (Some v)
      from h have "distinct (map fst vm)" by simp
      from append_tracked_present [of vm k v "metrics lg" series, OF this Some
          \<open>map_of (metrics lg) k = Some series\<close>]
      show ?thesis using eq Some \<open>map_of (metrics lg) k = Some series\<close> by simp
    qed
  qed
qed

theorem log_epoch_tracked_names_fixed_witness:
  "metrics (fst (log_epoch succeeds succeeds
       \<lparr>epochs = [1], train_loss = [2], val_loss = [], metrics = [(''accuracy'', [0.5])]\<rparr>
       2 1 (Some [(''accuracy'', 0.9), (''bleu'', 0.1)]))) = [(''accuracy'', [0.5, 0.9])]
 \<and> map_of (metrics (fst (log_epoch succeeds succeeds
       \<lparr>epochs = [1], train_loss = [2], val_loss = [], metrics = [(''accuracy'', [0.5])]\<rparr>
       2 1 (Some [(''accuracy'', 0.9), (''bleu'', 0.1)])))) ''accuracy'' = Some [0.5, 0.9]
 \<and> map_of (metrics (fst (log_epoch succeeds succeeds
       \<lparr>epochs = [1], train_loss = [2], val_loss = [], metrics = [(''accuracy'', [0.5])]\<rparr>
       2 1 (Some [(''accuracy'', 0.9), (''bleu'', 0.1)])))) ''bleu'' = None"
proof -
  have d: "distinct (map fst [(''accuracy'', 0.9::real), (''bleu'', 0.1)])" by simp
  note t = log_epoch_tracked_names_fixed
      [of succeeds succeeds
          "\<lparr>epochs = [1], train_loss = [2], val_loss = [], metrics = [(''accuracy'', [0.5])]\<rparr>"
          2 1 "Some [(''accuracy'', 0.9), (''bleu'', 0.1)]"]
  from t d have a: "\<forall>k. map_of (metrics (fst (log_epoch succeeds succeeds
       \<lparr>epochs = [1], train_loss = [2], val_loss = [], metrics = [(''accuracy'', [0.5])]\<rparr>
       2 1 (Some [(''accuracy'', 0.9), (''bleu'', 0.1)])))) k =
         (case map_of [(''accuracy'', [0.5::real])] k of
            None \<Rightarrow> None
          | Some series \<Rightarrow>
              (case map_of [(''accuracy'', 0.9), (''bleu'', 0.1)] k of
                 None \<Rightarrow> Some series | Some v \<Rightarrow> Some (series @ [v])))"
    by simp
  have m: "metrics (fst (log_epoch succeeds succeeds
       \<lparr>epochs = [1], train_loss = [2], val_loss = [], metrics = [(''accuracy'', [0.5])]\<rparr>
       2 1 (Some [(''accuracy'', 0.9), (''bleu'', 0.1)]))) = [(''accuracy'', [0.5, 0.9])]"
    by (simp add: log_epoch_metrics)
  from a [rule_format, of "''accuracy''"] a [rule_format, of "''bleu''"] m
  show ?thesis by simp
qed

section \<open>\<open>Sin.chat\<close>\<close>

text \<open>
  The texts that \<open>chat\<close> handles are Python \<open>str\<close> values, which are sequences of Unicode
  code points; the two fixed messages are Cyrillic. A text is therefore a list of code
  points.
\<close>

type_synonym ustr = "nat list"

text \<open>\<open>"Sin:"\<close> and \<open>"\n"\<close>.\<close>

definition sin_tag :: ustr where
  "sin_tag = [83, 105, 110, 58]"

definition newline :: ustr where
  "newline = [10]"

text \<open>The fallback message of line 93 and the error message of line 97.\<close>

definition fallback_message :: ustr where
  "fallback_message =
     [1053, 1077, 32, 1084, 1086, 1075, 1091, 32, 1089, 1092, 1086, 1088, 1084, 1091, 1083,
      1080, 1088, 1086, 1074, 1072, 1090, 1100, 32, 1086, 1090, 1074, 1077, 1090]"

definition error_message :: ustr where
  "error_message =
     [1055, 1088, 1086, 1080, 1079, 1086, 1096, 1083, 1072, 32, 1086, 1096, 1080, 1073, 1082,
      1072, 32, 1087, 1088, 1080, 32, 1075, 1077, 1085, 1077, 1088, 1072, 1094, 1080, 1080,
      32, 1086, 1090, 1074, 1077, 1090, 1072]"

text \<open>\<open>str.strip()\<close> removes the code points for which \<open>str.isspace\<close> holds at both ends.\<close>

definition isspace :: "nat \<Rightarrow> bool" where
  "isspace c \<longleftrightarrow>
     c \<in> set [9, 10, 11, 12, 13, 28, 29, 30, 31, 32, 133, 160, 5760, 8192, 8193, 8194, 8195,
              8196, 8197, 8198, 8199, 8200, 8201, 8202, 8232, 8233, 8239, 8287, 12288]"

definition strip :: "ustr \<Rightarrow> ustr" where
  "strip s = rev (dropWhile isspace (rev (dropWhile isspace s)))"

text \<open>
  \<open>str.split(sep)\<close> for a non-empty separator: the pieces between the non-overlapping
  occurrences of \<open>sep\<close>, found from the left. \<open>acc\<close> holds the current piece, reversed.
  The result always has at least one piece, so \<open>[-1]\<close> and \<open>[0]\<close> never raise on it.
\<close>

fun split_from :: "ustr \<Rightarrow> ustr \<Rightarrow> ustr \<Rightarrow> ustr list" where
  "split_from sep acc [] = [rev acc]"
| "split_from sep acc (c # cs) =
     (if sep \<noteq> [] \<and> prefix sep (c # cs)
      then rev acc # split_from sep [] (drop (length sep) (c # cs))
      else split_from sep (c # acc) cs)"

definition split :: "ustr \<Rightarrow> ustr \<Rightarrow> ustr list" where
  "split s sep = split_from sep [] s"

text \<open>\<open>sep.join(parts)\<close>.\<close>

fun join :: "ustr \<Rightarrow> ustr list \<Rightarrow> ustr" where
  "join sep [] = []"
| "join sep [p] = p"
| "join sep (p # q # ps) = p @ sep @ join sep (q # ps)"

text \<open>
  Lines 73 and 76: the last four context entries joined by newlines, followed by
  \<open>"\nSin:"\<close>.
\<close>

definition build_prompt :: "ustr list \<Rightarrow> ustr" where
  "build_prompt context = join newline (drop (length context - 4) context) @ newline @ sin_tag"

text \<open>Lines 85 and 86: what follows the last \<open>"Sin:"\<close>, stripped, then its first line, stripped.\<close>

definition clean_response :: "ustr \<Rightarrow> ustr" where
  "clean_response response = strip (hd (split (strip (last (split response sin_tag))) newline))"

text \<open>
  \<^verbatim>\<open>
  def chat(self, user_input):
      try:
          self.memory.add_interaction(user_input, "")
          context = "\n".join(list(self.memory.context)[-4:])
          prompt = f"{context}\nSin:"
          response = self.model.generate_response(prompt)
          clean_response = response.split("Sin:")[-1].strip()
          clean_response = clean_response.split("\n")[0].strip()
          self.memory.add_interaction(user_input, clean_response)
          return clean_response if clean_response else "<fallback>"
      except Exception as e:
          self.logger.error(...)
          return "<error message>"
  \<close>
  The memory and the model are collaborators. \<open>add_interaction\<close> returns the memory it leaves
  behind and the exception it raised, if any; \<open>context\<close> reads the memory's context entries;
  \<open>generate_response\<close> returns the model's text or an exception. \<open>chat\<close> returns its answer
  and the memory it leaves behind.
\<close>

definition chat ::
  "(ustr \<Rightarrow> ustr \<Rightarrow> 'mem \<Rightarrow> 'mem \<times> error option) \<Rightarrow> ('mem \<Rightarrow> ustr list)
     \<Rightarrow> (ustr \<Rightarrow> error + ustr) \<Rightarrow> 'mem \<Rightarrow> ustr \<Rightarrow> ustr \<times> 'mem" where
  "chat add_interaction context generate_response mem user_input =
     (case add_interaction user_input [] mem of
        (mem1, Some e) \<Rightarrow> (error_message, mem1)
      | (mem1, None) \<Rightarrow>
          (case generate_response (build_prompt (context mem1)) of
             Inl e \<Rightarrow> (error_message, mem1)
           | Inr response \<Rightarrow>
               (case add_interaction user_input (clean_response response) mem1 of
                  (mem2, Some e) \<Rightarrow> (error_message, mem2)
                | (mem2, None) \<Rightarrow>
                    (if clean_response response \<noteq> [] then clean_response response
                     else fallback_message, mem2))))"

lemma split_from_nonempty: "split_from sep acc s \<noteq> []"
  by (induction sep acc s rule: split_from.induct) auto

text \<open>
  Claim C10. For every user input and every behaviour of the memory and the model, \<open>chat\<close>
  returns (it is a total function: no exception leaves it) and its answer is a non-empty
  text. If either \<open>add_interaction\<close> call or \<open>generate_response\<close> raises, the answer is the
  fixed error message; if all succeed, the answer is the cleaned response, or the fixed
  fallback message when the cleaned response is empty.
\<close>

theorem chat_never_raises_nonempty:
  "fst (chat add ctx gen mem u) \<noteq> []
 \<and> (\<forall>mem1 e. add u [] mem = (mem1, Some e) \<longrightarrow>
      chat add ctx gen mem u = (error_message, mem1))
 \<and> (\<forall>mem1 e. add u [] mem = (mem1, None) \<and> gen (build_prompt (ctx mem1)) = Inl e \<longrightarrow>
      chat add ctx gen mem u = (error_message, mem1))
 \<and> (\<forall>mem1 r mem2 e. add u [] mem = (mem1, None) \<and> gen (build_prompt (ctx mem1)) = Inr r
        \<and> add u (clean_response r) mem1 = (mem2, Some e) \<longrightarrow>
      chat add ctx gen mem u = (error_message, mem2))
 \<and> (\<forall>mem1 r mem2. add u [] mem = (mem1, None) \<and> gen (build_prompt (ctx mem1)) = Inr r
        \<and> add u (clean_response r) mem1 = (mem2, None) \<longrightarrow>
      chat add ctx gen mem u =
        (if clean_response r = [] then fallback_message else clean_response r, mem2))"
proof -
  have e: "error_message \<noteq> []" by (simp add: error_message_def)
  have f: "fallback_message \<noteq> []" by (simp add: fallback_message_def)
  have "fst (chat add ctx gen mem u) \<noteq> []"
    using e f by (simp add: chat_def split: prod.splits option.splits sum.splits)
  moreover have "\<forall>mem1 e. add u [] mem = (mem1, Some e) \<longrightarrow>
      chat add ctx gen mem u = (error_message, mem1)"
    by (simp add: chat_def)
  moreover have "\<forall>mem1 e. add u [] mem = (mem1, None) \<and> gen (build_prompt (ctx mem1)) = Inl e \<longrightarrow>
      chat add ctx gen mem u = (error_message, mem1)"
    by (simp add: chat_def)
  moreover have "\<forall>mem1 r mem2 e. add u [] mem = (mem1, None) \<and> gen (build_prompt (ctx mem1)) = Inr r
        \<and> add u (clean_response r) mem1 = (mem2, Some e) \<longrightarrow>
      chat add ctx gen mem u = (error_message, mem2)"
    by (simp add: chat_def)
  moreover have "\<forall>mem1 r mem2. add u [] mem = (mem1, None) \<and> gen (build_prompt (ctx mem1)) = Inr r
        \<and> add u (clean_response r) mem1 = (mem2, None) \<longrightarrow>
      chat add ctx gen mem u =
        (if clean_response r = [] then fallback_message else clean_response r, mem2)"
    by (simp add: chat_def)
  ultimately show ?thesis by blast
qed

theorem chat_never_raises_nonempty_witness:
  "chat (\<lambda>u r m. (m @ [u, r], None)) id (\<lambda>p. Inr [83, 105, 110, 58, 32, 104, 105, 10, 120]) [] [72]
     = ([104, 105], [[72], [], [72], [104, 105]])
 \<and> chat (\<lambda>u r m. (m @ [u, r], None)) id (\<lambda>p. Inr [83, 105, 110, 58, 32]) [] [72]
     = (fallback_message, [[72], [], [72], []])
 \<and> chat (\<lambda>u r m. (m @ [u, r], None)) id (\<lambda>p. Inl RuntimeError) [] [72]
     = (error_message, [[72], []])
 \<and> chat (\<lambda>u r m. (m, Some OSError)) id (\<lambda>p. Inr [104, 105]) [] [72]
     = (error_message, [])"
proof -
  have c1: "clean_response [83, 105, 110, 58, 32, 104, 105, 10, 120] = [104, 105]"
    by (simp add: clean_response_def split_def strip_def isspace_def sin_tag_def newline_def)
  have c2: "clean_response [83, 105, 110, 58, 32] = []"
    by (simp add: clean_response_def split_def strip_def isspace_def sin_tag_def newline_def)
  show ?thesis
    using chat_never_raises_nonempty
        [of "\<lambda>u r m. (m @ [u, r], None)" id "\<lambda>p. Inr [83, 105, 110, 58, 32, 104, 105, 10, 120]"
            "[]" "[72]"]
      chat_never_raises_nonempty
        [of "\<lambda>u r m. (m @ [u, r], None)" id "\<lambda>p. Inr [83, 105, 110, 58, 32]" "[]" "[72]"]
      chat_never_raises_nonempty
        [of "\<lambda>u r m. (m @ [u, r], None)" id "\<lambda>p. Inl RuntimeError" "[]" "[72]"]
      chat_never_raises_nonempty
        [of "\<lambda>u r m. (m, Some OSError)" id "\<lambda>p. Inr [104, 105]" "[]::ustr list" "[72]"]
    by (simp add: c1 c2)
qed

section \<open>\<open>Sin._load_all_datasets\<close>\<close>

text \<open>\<open>str.endswith\<close> and \<open>os.path.join\<close> of a directory and an entry name.\<close>

definition endswith :: "string \<Rightarrow> string \<Rightarrow> bool" where
  "endswith s sfx \<longleftrightarrow> length sfx \<le> length s \<and> drop (length s - length sfx) s = sfx"

definition path_join :: "string \<Rightarrow> string \<Rightarrow> string" where
  "path_join dir filename = dir @ ''/'' @ filename"

text \<open>
  What \<open>json.load\<close> can return, and Python's \<open>'dialogues' in data\<close> on it: key membership
  for an object, element membership for an array, substring test for a string, and
  \<open>TypeError\<close> for \<open>null\<close>, booleans and numbers.
\<close>

datatype json =
    JNull
  | JBool bool
  | JNum real
  | JStr string
  | JArr "json list"
  | JObj "(string \<times> json) list"

fun contains_dialogues :: "json \<Rightarrow> error + bool" where
  "contains_dialogues (JObj kvs) = Inr (''dialogues'' \<in> fst ` set kvs)"
| "contains_dialogues (JArr xs) = Inr (JStr ''dialogues'' \<in> set xs)"
| "contains_dialogues (JStr t) = Inr (sublist ''dialogues'' t)"
| "contains_dialogues _ = Inl TypeError"

text \<open>
  The collaborators of the loop, each keyed by the file path: opening and parsing a JSON
  file, and the trainer's two loaders. A dataset is a sequence of samples.
\<close>

record 'a loaders =
  read_json :: "string \<Rightarrow> error + json"
  load_json_data :: "string \<Rightarrow> error + 'a list"
  load_text_data :: "string \<Rightarrow> error + 'a list"

text \<open>
  The body of the \<open>try\<close> for one directory entry: \<open>Inl e\<close> when it raises, \<open>Inr None\<close> when
  nothing is appended, \<open>Inr (Some ds)\<close> when \<open>ds\<close> is appended to \<open>datasets\<close>.
\<close>

definition load_file :: "'a loaders \<Rightarrow> string \<Rightarrow> string \<Rightarrow> error + 'a list option" where
  "load_file env dir filename =
     (let filepath = path_join dir filename in
      if endswith filename ''.json'' then
        (case read_json env filepath of
           Inl e \<Rightarrow> Inl e
         | Inr data \<Rightarrow>
             (case contains_dialogues data of
                Inl e \<Rightarrow> Inl e
              | Inr has \<Rightarrow>
                  if has then
                    (case load_json_data env filepath of
                       Inl e \<Rightarrow> Inl e
                     | Inr ds \<Rightarrow> Inr (Some ds))
                  else Inr None))
      else if endswith filename ''.txt'' then
        (case load_text_data env filepath of
           Inl e \<Rightarrow> Inl e
         | Inr ds \<Rightarrow> Inr (Some ds))
      else Inr None)"

text \<open>
  The \<open>for\<close> loop with its \<open>except Exception\<close>: a failure is recorded in the error log
  (\<open>logger.error\<close>, as the file name and the exception) and the loop goes on.
\<close>

fun load_loop ::
  "'a loaders \<Rightarrow> string \<Rightarrow> string list \<Rightarrow> 'a list list \<Rightarrow> (string \<times> error) list
     \<Rightarrow> 'a list list \<times> (string \<times> error) list" where
  "load_loop env dir [] datasets logged = (datasets, logged)"
| "load_loop env dir (filename # rest) datasets logged =
     (case load_file env dir filename of
        Inl e \<Rightarrow> load_loop env dir rest datasets (logged @ [(filename, e)])
      | Inr None \<Rightarrow> load_loop env dir rest datasets logged
      | Inr (Some ds) \<Rightarrow> load_loop env dir rest (datasets @ [ds]) logged)"

text \<open>\<open>torch.utils.data.ConcatDataset\<close>: the datasets in order; its length is the sum of theirs.\<close>

datatype 'a concat_dataset = ConcatDataset "'a list list"


text \<open>
  \<^verbatim>\<open>
  def _load_all_datasets(self):
      datasets = []
      for filename in os.listdir(self.conversations_dir):
          filepath = os.path.join(self.conversations_dir, filename)
          try:
              if filename.endswith('.json'):
                  with open(filepath, 'r') as f:
                      data = json.load(f)
                      if 'dialogues' in data:
                          datasets.append(self.trainer.load_json_data(filepath))
              elif filename.endswith('.txt'):
                  datasets.append(self.trainer.load_text_data(filepath))
          except Exception as e:
              self.logger.error(f"Error loading {filename}: {str(e)}")
      return torch.utils.data.ConcatDataset(datasets) if datasets else None
  \<close>
  \<open>listing\<close> is what \<open>os.listdir\<close> yields: the entry names in directory order, or the
  exception it raises, which is outside the \<open>try\<close> and leaves the function.
\<close>

definition load_all_datasets ::
  "'a loaders \<Rightarrow> string \<Rightarrow> error + string list
     \<Rightarrow> error + ('a concat_dataset option \<times> (string \<times> error) list)" where
  "load_all_datasets env dir listing =
     (case listing of
        Inl e \<Rightarrow> Inl e
      | Inr names \<Rightarrow>
          (case load_loop env dir names [] [] of
             (datasets, logged) \<Rightarrow>
               Inr (if datasets \<noteq> [] then Some (ConcatDataset datasets) else None, logged)))"

text \<open>
  The claim's own terms: the datasets of the files that load, in directory order, and the
  failures of the files that do not.
\<close>

definition successfully_loaded :: "'a loaders \<Rightarrow> string \<Rightarrow> string list \<Rightarrow> 'a list list" where
  "successfully_loaded env dir names =
     List.map_filter
       (\<lambda>f. case load_file env dir f of Inr (Some ds) \<Rightarrow> Some ds | _ \<Rightarrow> None) names"

definition load_failures :: "'a loaders \<Rightarrow> string \<Rightarrow> string list \<Rightarrow> (string \<times> error) list" where
  "load_failures env dir names =
     List.map_filter
       (\<lambda>f. case load_file env dir f of Inl e \<Rightarrow> Some (f, e) | _ \<Rightarrow> None) names"

lemma load_loop_accumulates:
  "load_loop env dir names datasets logged =
     (datasets @ successfully_loaded env dir names, logged @ load_failures env dir names)"
proof (induction names arbitrary: datasets logged)
  case Nil
  then show ?case by (simp add: successfully_loaded_def load_failures_def map_filter_simps)
next
  case (Cons f names)
  show ?case
  proof (cases "load_file env dir f")
    case (Inl e)
    with Cons.IH [of datasets "logged @ [(f, e)]"] show ?thesis
      by (simp add: successfully_loaded_def load_failures_def map_filter_simps)
  next
    case (Inr r)
    show ?thesis
    proof (cases r)
      case None
      with Inr Cons.IH [of datasets logged] show ?thesis
        by (simp add: successfully_loaded_def load_failures_def map_filter_simps)
    next
      case (Some ds)
      with Inr Cons.IH [of "datasets @ [ds]" logged] show ?thesis
        by (simp add: successfully_loaded_def load_failures_def map_filter_simps)
    qed
  qed
qed

lemma successfully_loaded_empty_iff:
  "successfully_loaded env dir names = [] \<longleftrightarrow>
     (\<forall>f\<in>set names. \<forall>ds. load_file env dir f \<noteq> Inr (Some ds))"
  by (induction names)
     (auto simp: successfully_loaded_def map_filter_simps split: sum.splits option.splits)

text \<open>
  Claim C7. When the directory can be listed, aggregation returns (it never raises, whatever
  the single files do). It returns \<open>None\<close> exactly when no file was successfully loaded.
  Otherwise it returns one combined dataset made of the datasets of exactly the files that
  loaded, in directory-iteration order. Every file whose parsing or loading raised is
  recorded in the error log, in order, and only that file is missing from the result:
  the files before and after it are aggregated as if it were not there.
\<close>

theorem load_all_datasets_skips_failures:
  "load_all_datasets env dir (Inr names) =
     Inr (if successfully_loaded env dir names = [] then None
          else Some (ConcatDataset (successfully_loaded env dir names)),
          load_failures env dir names)
 \<and> (fst (projr (load_all_datasets env dir (Inr names))) = None \<longleftrightarrow>
      (\<forall>f\<in>set names. \<forall>ds. load_file env dir f \<noteq> Inr (Some ds)))
 \<and> successfully_loaded env dir (before @ [bad] @ after) =
      successfully_loaded env dir before
        @ (case load_file env dir bad of Inr (Some ds) \<Rightarrow> [ds] | _ \<Rightarrow> [])
        @ successfully_loaded env dir after"
proof (intro conjI)
  show a: "load_all_datasets env dir (Inr names) =
     Inr (if successfully_loaded env dir names = [] then None
          else Some (ConcatDataset (successfully_loaded env dir names)),
          load_failures env dir names)"
    by (simp add: load_all_datasets_def load_loop_accumulates)
  show "fst (projr (load_all_datasets env dir (Inr names))) = None \<longleftrightarrow>
      (\<forall>f\<in>set names. \<forall>ds. load_file env dir f \<noteq> Inr (Some ds))"
    unfolding a using successfully_loaded_empty_iff [of env dir names] by simp
  show "successfully_loaded env dir (before @ [bad] @ after) =
      successfully_loaded env dir before
        @ (case load_file env dir bad of Inr (Some ds) \<Rightarrow> [ds] | _ \<Rightarrow> [])
        @ successfully_loaded env dir after"
    by (simp add: successfully_loaded_def map_filter_def split: sum.splits option.splits)
qed

text \<open>
  Three files, the second malformed: the result combines the first and the third, and the
  second file's error is in the log.
\<close>

definition example_loaders :: "nat loaders" where
  "example_loaders =
     \<lparr>read_json = (\<lambda>p. if p = ''data/conversations/a.json''
                        then Inr (JObj [(''dialogues'', JArr [])])
                        else Inl (ValueError ''Expecting value'')),
      load_json_data = (\<lambda>p. Inr [1, 2]),
      load_text_data = (\<lambda>p. Inr [3])\<rparr>"

theorem load_all_datasets_skips_failures_witness:
  "load_all_datasets example_loaders ''data/conversations''
       (Inr [''a.json'', ''b.json'', ''c.txt''])
     = Inr (Some (ConcatDataset [[1, 2], [3]]), [(''b.json'', ValueError ''Expecting value'')])
 \<and> load_all_datasets example_loaders ''data/conversations'' (Inr [''b.json'', ''notes.md''])
     = Inr (None, [(''b.json'', ValueError ''Expecting value'')])"
proof -
  have f1: "load_file example_loaders ''data/conversations'' ''a.json'' = Inr (Some [1, 2])"
    by (simp add: load_file_def example_loaders_def endswith_def path_join_def)
  have f2: "load_file example_loaders ''data/conversations'' ''b.json''
      = Inl (ValueError ''Expecting value'')"
    by (simp add: load_file_def example_loaders_def endswith_def path_join_def)
  have f3: "load_file example_loaders ''data/conversations'' ''c.txt'' = Inr (Some [3])"
    by (simp add: load_file_def example_loaders_def endswith_def path_join_def)
  have f4: "load_file example_loaders ''data/conversations'' ''notes.md'' = Inr None"
    by (simp add: load_file_def example_loaders_def endswith_def path_join_def)
  show ?thesis
    using load_all_datasets_skips_failures
        [of example_loaders "''data/conversations''" "[''a.json'', ''b.json'', ''c.txt'']"]
      load_all_datasets_skips_failures
        [of example_loaders "''data/conversations''" "[''b.json'', ''notes.md'']"]
    by (simp add: successfully_loaded_def load_failures_def f1 f2 f3 f4)
qed

section \<open>\<open>Sin._cleanup_old_models\<close>\<close>

text \<open>
  The models directory as its entries in the order \<open>glob\<close> yields them. Each entry has a
  name, says whether it is a regular file, and carries its modification time.
\<close>

record file_entry =
  fname :: string
  is_file :: bool
  st_mtime :: real

text \<open>
  \<open>[f for f in self.models_dir.glob('*.pt') if f.is_file()]\<close>, then
  \<open>sorted(..., key=lambda f: f.stat().st_mtime, reverse=True)\<close>. Python's sort is stable and
  stays so under \<open>reverse=True\<close> (entries with equal keys keep their original order), which
  is a stable ascending sort on the negated key. The pattern \<open>*.pt\<close> matches every name that
  ends in \<open>.pt\<close>, the canonical \<open>sin_model.pt\<close> written by \<open>save\<close> included.
\<close>

definition sorted_models :: "file_entry list \<Rightarrow> file_entry list" where
  "sorted_models dir =
     sort_key (\<lambda>f. - st_mtime f) [f \<leftarrow> dir. endswith (fname f) ''.pt'' \<and> is_file f]"

text \<open>The slice \<open>xs[n:]\<close>; a negative \<open>n\<close> counts from the end.\<close>

definition slice_from :: "int \<Rightarrow> 'a list \<Rightarrow> 'a list" where
  "slice_from n xs = (if 0 \<le> n then drop (nat n) xs else drop (length xs - nat (- n)) xs)"

text \<open>
  The deletion loop. \<open>unlink\<close> says for a file name whether removing it raises. A file that
  is removed leaves the directory; a failure is recorded in the error log and the loop
  goes on with the next file.
\<close>

fun unlink_all ::
  "(string \<Rightarrow> error option) \<Rightarrow> file_entry list \<Rightarrow> file_entry list \<Rightarrow> (string \<times> error) list
     \<Rightarrow> file_entry list \<times> (string \<times> error) list" where
  "unlink_all unlink [] dir logged = (dir, logged)"
| "unlink_all unlink (old_model # rest) dir logged =
     (case unlink (fname old_model) of
        None \<Rightarrow> unlink_all unlink rest [f \<leftarrow> dir. fname f \<noteq> fname old_model] logged
      | Some e \<Rightarrow> unlink_all unlink rest dir (logged @ [(fname old_model, e)]))"

text \<open>
  \<^verbatim>\<open>
  def _cleanup_old_models(self, max_models=5):
      models = sorted(
          [f for f in self.models_dir.glob('*.pt') if f.is_file()],
          key=lambda f: f.stat().st_mtime,
          reverse=True
      )
      for old_model in models[max_models:]:
          try:
              old_model.unlink()
              self.logger.info(f"Removed old model: {old_model}")
          except Exception as e:
              self.logger.error(f"Failed to remove {old_model}: {str(e)}")
  \<close>
  \<open>old_models\<close> is \<open>models[max_models:]\<close>. The result is the directory afterwards and the
  error log.
\<close>

definition old_models :: "file_entry list \<Rightarrow> int \<Rightarrow> file_entry list" where
  "old_models dir max_models = slice_from max_models (sorted_models dir)"

definition cleanup_old_models ::
  "(string \<Rightarrow> error option) \<Rightarrow> file_entry list \<Rightarrow> int
     \<Rightarrow> file_entry list \<times> (string \<times> error) list" where
  "cleanup_old_models unlink dir max_models =
     unlink_all unlink (old_models dir max_models) dir []"

text \<open>
  A store for evaluating the code: the canonical \<open>sin_model.pt\<close>, modified last, and eight
  versioned snapshots \<open>v1.pt\<close> (oldest) to \<open>v8.pt\<close> (newest).
\<close>

definition snapshot :: "string \<Rightarrow> real \<Rightarrow> file_entry" where
  "snapshot n t = \<lparr>fname = n, is_file = True, st_mtime = t\<rparr>"

definition eight_versioned :: "file_entry list" where
  "eight_versioned =
     [snapshot ''v3.pt'' 3, snapshot ''v1.pt'' 1, snapshot ''v8.pt'' 8, snapshot ''v2.pt'' 2,
      snapshot ''v5.pt'' 5, snapshot ''v4.pt'' 4, snapshot ''v7.pt'' 7, snapshot ''v6.pt'' 6]"

lemma unlink_all_result:
  "unlink_all unlink olds dir logged =
     ([f \<leftarrow> dir. \<not> (\<exists>old\<in>set olds. fname old = fname f \<and> unlink (fname old) = None)],
      logged @ List.map_filter
        (\<lambda>old. case unlink (fname old) of None \<Rightarrow> None | Some e \<Rightarrow> Some (fname old, e)) olds)"
proof (induction olds arbitrary: dir logged)
  case Nil
  then show ?case by (simp add: map_filter_simps)
next
  case (Cons old olds)
  show ?case
  proof (cases "unlink (fname old)")
    case None
    have "[f \<leftarrow> [f \<leftarrow> dir. fname f \<noteq> fname old].
             \<not> (\<exists>old'\<in>set olds. fname old' = fname f \<and> unlink (fname old') = None)]
        = [f \<leftarrow> dir. \<not> (\<exists>old'\<in>set (old # olds). fname old' = fname f \<and> unlink (fname old') = None)]"
      using None by (auto intro!: filter_cong)
    with None Cons.IH [of "[f \<leftarrow> dir. fname f \<noteq> fname old]" logged] show ?thesis
      by (simp add: map_filter_simps)
  next
    case (Some e)
    have "[f \<leftarrow> dir. \<not> (\<exists>old'\<in>set olds. fname old' = fname f \<and> unlink (fname old') = None)]
        = [f \<leftarrow> dir. \<not> (\<exists>old'\<in>set (old # olds). fname old' = fname f \<and> unlink (fname old') = None)]"
      using Some by (auto intro!: filter_cong)
    with Some Cons.IH [of dir "logged @ [(fname old, e)]"] show ?thesis
      by (simp add: map_filter_simps)
  qed
qed

lemma sorted_models_newest_first:
  "\<forall>k\<in>set (take n (sorted_models dir)). \<forall>old\<in>set (drop n (sorted_models dir)).
     st_mtime old \<le> st_mtime k"
proof -
  let ?ms = "sorted_models dir"
  have "sorted (map (\<lambda>f. - st_mtime f) ?ms)"
    by (simp add: sorted_models_def)
  then have "sorted (map (\<lambda>f. - st_mtime f) (take n ?ms) @ map (\<lambda>f. - st_mtime f) (drop n ?ms))"
    by (simp only: map_append [symmetric] append_take_drop_id)
  then have "\<forall>x\<in>set (map (\<lambda>f. - st_mtime f) (take n ?ms)).
             \<forall>y\<in>set (map (\<lambda>f. - st_mtime f) (drop n ?ms)). x \<le> y"
    by (simp only: sorted_append) blast
  then show ?thesis by auto
qed

text \<open>
  Claim C6, as stated, fails: the pruning does not tell versioned snapshots from the
  canonical slot. With the canonical \<open>sin_model.pt\<close> modified last and eight versioned
  snapshots, \<open>max_models = 5\<close> and every deletion succeeding, only the four newest versioned
  snapshots remain: four are removed, not three, and \<open>v4.pt\<close>, one of the five most
  recently modified versioned snapshots, is among them.
\<close>

theorem cleanup_counts_canonical_counterexample:
  "map fname (fst (cleanup_old_models succeeds (snapshot ''sin_model.pt'' 9 # eight_versioned) 5))
     = [''sin_model.pt'', ''v8.pt'', ''v5.pt'', ''v7.pt'', ''v6.pt'']"
  by (simp add: cleanup_old_models_def old_models_def slice_from_def succeeds_def
        sorted_models_def eight_versioned_def snapshot_def endswith_def)

text \<open>
  Claim C6, amended. For \<open>max_models \<ge> 0\<close>, pruning ranks every regular file of the models
  directory whose name ends in \<open>.pt\<close>, the canonical \<open>sin_model.pt\<close> included, by
  modification time, newest first. It retains the first \<open>max_models\<close> of them (all of them
  when there are fewer), each at least as recently modified as every remaining one, and
  attempts to delete each remaining one. The directory afterwards is the directory before
  without the remaining files whose deletion succeeded; a file whose deletion fails stays,
  its failure is logged, and the files after it are still deleted.
\<close>

theorem cleanup_old_models_keeps_most_recent:
  "0 \<le> max_models \<Longrightarrow>
     set (sorted_models dir) = {f \<in> set dir. endswith (fname f) ''.pt'' \<and> is_file f}
   \<and> sorted_models dir = take (nat max_models) (sorted_models dir) @ old_models dir max_models
   \<and> length (take (nat max_models) (sorted_models dir))
        = min (nat max_models) (length (sorted_models dir))
   \<and> (\<forall>k\<in>set (take (nat max_models) (sorted_models dir)). \<forall>old\<in>set (old_models dir max_models).
         st_mtime old \<le> st_mtime k)
   \<and> fst (cleanup_old_models unlink dir max_models)
        = [f \<leftarrow> dir. \<not> (\<exists>old\<in>set (old_models dir max_models).
                          fname old = fname f \<and> unlink (fname old) = None)]
   \<and> snd (cleanup_old_models unlink dir max_models)
        = List.map_filter
            (\<lambda>old. case unlink (fname old) of None \<Rightarrow> None | Some e \<Rightarrow> Some (fname old, e))
            (old_models dir max_models)"
proof -
  assume nonneg: "0 \<le> max_models"
  then have old: "old_models dir max_models = drop (nat max_models) (sorted_models dir)"
    by (simp add: old_models_def slice_from_def)
  have "set (sorted_models dir) = {f \<in> set dir. endswith (fname f) ''.pt'' \<and> is_file f}"
    by (auto simp: sorted_models_def)
  moreover have "sorted_models dir
      = take (nat max_models) (sorted_models dir) @ old_models dir max_models"
    by (simp add: old)
  moreover have "length (take (nat max_models) (sorted_models dir))
      = min (nat max_models) (length (sorted_models dir))"
    by simp
  moreover have "\<forall>k\<in>set (take (nat max_models) (sorted_models dir)).
      \<forall>old\<in>set (old_models dir max_models). st_mtime old \<le> st_mtime k"
    unfolding old by (rule sorted_models_newest_first)
  moreover have "fst (cleanup_old_models unlink dir max_models)
      = [f \<leftarrow> dir. \<not> (\<exists>old\<in>set (old_models dir max_models).
                        fname old = fname f \<and> unlink (fname old) = None)]"
    by (simp add: cleanup_old_models_def unlink_all_result)
  moreover have "snd (cleanup_old_models unlink dir max_models)
      = List.map_filter
          (\<lambda>old. case unlink (fname old) of None \<Rightarrow> None | Some e \<Rightarrow> Some (fname old, e))
          (old_models dir max_models)"
    by (simp add: cleanup_old_models_def unlink_all_result)
  ultimately show ?thesis by blast
qed

text \<open>
  The example of the claim where it does hold: eight versioned snapshots and no canonical
  file, \<open>max_models = 5\<close>, and the deletion of \<open>v2.pt\<close> failing. \<open>v1.pt\<close> and \<open>v3.pt\<close> are
  removed, \<open>v2.pt\<close> stays and its failure is logged.
\<close>

theorem cleanup_old_models_keeps_most_recent_witness:
  "(0::int) \<le> 5
 \<and> map fname (old_models eight_versioned 5) = [''v3.pt'', ''v2.pt'', ''v1.pt'']
 \<and> map fname (fst (cleanup_old_models (\<lambda>n. if n = ''v2.pt'' then Some OSError else None)
        eight_versioned 5))
      = [''v8.pt'', ''v2.pt'', ''v5.pt'', ''v4.pt'', ''v7.pt'', ''v6.pt'']
 \<and> snd (cleanup_old_models (\<lambda>n. if n = ''v2.pt'' then Some OSError else None)
        eight_versioned 5) = [(''v2.pt'', OSError)]"
proof -
  have h: "(0::int) \<le> 5" by simp
  have o: "old_models eight_versioned 5 = [snapshot ''v3.pt'' 3, snapshot ''v2.pt'' 2, snapshot ''v1.pt'' 1]"
    by (simp add: old_models_def slice_from_def sorted_models_def eight_versioned_def
          snapshot_def endswith_def)
  show ?thesis
    using h cleanup_old_models_keeps_most_recent
        [OF h, of eight_versioned "\<lambda>n. if n = ''v2.pt'' then Some OSError else None"]
    by (simp add: o map_filter_simps) (simp add: eight_versioned_def snapshot_def)
qed

section \<open>\<open>Sin.compare_models\<close>\<close>

subsection \<open>The live model and its state dictionaries\<close>

text \<open>
  \<open>compare_models\<close> keeps \<open>original_state\<close> while it loads other weights into the same
  model, so what the two share decides what the final \<open>load_state_dict(original_state)\<close>
  restores. The model is a \<open>torch.nn.Module\<close> (it is handed to \<open>torch.optim.AdamW\<close> and
  \<open>torch.load\<close>'s result is loaded into it); the module class is a library class, modelled
  here after its documented behaviour with an explicit store of tensors:
  \<^item> a tensor lives at an address of the store; the module owns one tensor per parameter name;
  \<^item> \<open>state_dict()\<close> returns a dictionary "containing references to the whole state of the
    module": the parameter names with the addresses of the module's own tensors, no copy;
  \<^item> \<open>torch.load(path)\<close> builds a dictionary of tensors of its own, allocated afresh;
  \<^item> \<open>load_state_dict(sd)\<close> copies, for every parameter whose name is a key of \<open>sd\<close>, the
    contents of \<open>sd\<close>'s tensor into the module's own tensor, in place; afterwards it raises
    \<open>RuntimeError\<close> if a parameter name is missing from \<open>sd\<close> or \<open>sd\<close> has an unexpected key.
\<close>

type_synonym addr = nat

type_synonym state_dict = "(string \<times> addr) list"

record 'w model =
  tensors :: "addr \<Rightarrow> 'w"
  next_addr :: addr
  parameters :: "(string \<times> addr) list"

definition state_dict :: "'w model \<Rightarrow> state_dict" where
  "state_dict m = parameters m"

text \<open>The parameter values of the live model, as an observer (the evaluator) reads them.\<close>

definition weights :: "'w model \<Rightarrow> (string \<times> 'w) list" where
  "weights m = map (\<lambda>(n, a). (n, tensors m a)) (parameters m)"

fun alloc :: "(string \<times> 'w) list \<Rightarrow> 'w model \<Rightarrow> state_dict \<times> 'w model" where
  "alloc [] m = ([], m)"
| "alloc ((n, v) # rest) m =
     (case alloc rest (m\<lparr>tensors := (tensors m)(next_addr m := v), next_addr := Suc (next_addr m)\<rparr>) of
        (sd, m') \<Rightarrow> ((n, next_addr m) # sd, m'))"

fun copy_params :: "state_dict \<Rightarrow> (string \<times> addr) list \<Rightarrow> (addr \<Rightarrow> 'w) \<Rightarrow> (addr \<Rightarrow> 'w)" where
  "copy_params sd [] ts = ts"
| "copy_params sd ((n, a) # ps) ts =
     copy_params sd ps (case map_of sd n of None \<Rightarrow> ts | Some b \<Rightarrow> ts(a := ts b))"

definition load_state_dict :: "state_dict \<Rightarrow> 'w model \<Rightarrow> 'w model \<times> error option" where
  "load_state_dict sd m =
     (m\<lparr>tensors := copy_params sd (parameters m) (tensors m)\<rparr>,
      if set (map fst sd) = set (map fst (parameters m)) then None else Some RuntimeError)"

subsection \<open>The results dictionary\<close>

text \<open>
  A result is the evaluator's metric mapping, to which \<open>compare_models\<close> adds the key
  \<open>"improvement"\<close> holding a mapping: its values are floats or a mapping of floats.
  Dictionaries keep insertion order; assigning to an existing key keeps the key's place.
\<close>

datatype pyval = PyFloat real | PyDict metric_map

type_synonym result = "(string \<times> pyval) list"

definition to_result :: "metric_map \<Rightarrow> result" where
  "to_result ms = map (\<lambda>(k, v). (k, PyFloat v)) ms"

text \<open>
  \<open>Path(path).name\<close>: the final component of a path, trailing separators ignored.
\<close>

definition path_name :: "string \<Rightarrow> string" where
  "path_name p =
     rev (takeWhile (\<lambda>c. c \<noteq> CHR ''/'') (dropWhile (\<lambda>c. c = CHR ''/'') (rev p)))"

text \<open>
  \<open>{k: v - base[k] for k, v in metrics.items()}\<close>: \<open>base[k]\<close> raises \<open>KeyError\<close> for a missing
  key, and the subtraction raises \<open>TypeError\<close> unless both operands are floats.
\<close>

fun improvement_of :: "result \<Rightarrow> result \<Rightarrow> error + metric_map" where
  "improvement_of base [] = Inr []"
| "improvement_of base ((k, v) # rest) =
     (case map_of base k of
        None \<Rightarrow> Inl (KeyError k)
      | Some b \<Rightarrow>
          (case (v, b) of
             (PyFloat x, PyFloat y) \<Rightarrow>
               (case improvement_of base rest of
                  Inl e \<Rightarrow> Inl e
                | Inr r \<Rightarrow> Inr ((k, x - y) # r))
           | _ \<Rightarrow> Inl TypeError))"

text \<open>
  \<^verbatim>\<open>
  base = next(iter(results.values()))
  for name, metrics in results.items():
      results[name]["improvement"] = {k: v - base[k] for k, v in metrics.items()}
  \<close>
  \<open>base\<close> is the first result's dictionary itself, not a copy: once the loop has given the
  first result its \<open>"improvement"\<close> key, \<open>base\<close> has it too. The model reads \<open>base\<close> from
  the current \<open>results\<close> at every step, and writes \<open>mets\<close> for the loop variable \<open>metrics\<close>.
  The loop runs over every name, the first included.
\<close>

fun add_improvements :: "string list \<Rightarrow> (string \<times> result) list \<Rightarrow> error + (string \<times> result) list" where
  "add_improvements [] results = Inr results"
| "add_improvements (name # names) results =
     (case results of
        [] \<Rightarrow> Inl (KeyError name)
      | (first, base) # others \<Rightarrow>
          (case map_of results name of
             None \<Rightarrow> Inl (KeyError name)
           | Some mets \<Rightarrow>
               (case improvement_of base mets of
                  Inl e \<Rightarrow> Inl e
                | Inr imp \<Rightarrow>
                    add_improvements names
                      (AList.update name
                         (AList.update ''improvement'' (PyDict imp) mets) results))))"

subsection \<open>The function\<close>

text \<open>
  The \<open>for path in model_paths\<close> loop of the \<open>try\<close> block. \<open>torch_load\<close> gives a file's
  contents or raises. The loop returns the model and the evaluator's call list as it
  leaves them, and the results or the exception that ended it.
\<close>

fun compare_loop ::
  "((string \<times> 'w) list, 'a) evaluator \<Rightarrow> (string \<Rightarrow> error + (string \<times> 'w) list) \<Rightarrow> 'a list option
     \<Rightarrow> string list \<Rightarrow> 'w model \<Rightarrow> 'a eval_calls \<Rightarrow> (string \<times> result) list
     \<Rightarrow> ('w model \<times> 'a eval_calls) \<times> (error + (string \<times> result) list)" where
  "compare_loop ev torch_load test_dataset [] m calls results = ((m, calls), Inr results)"
| "compare_loop ev torch_load test_dataset (path # paths) m calls results =
     (case torch_load path of
        Inl e \<Rightarrow> ((m, calls), Inl e)
      | Inr contents \<Rightarrow>
          (case alloc contents m of
             (sd, m1) \<Rightarrow>
               (case load_state_dict sd m1 of
                  (m2, Some e) \<Rightarrow> ((m2, calls), Inl e)
                | (m2, None) \<Rightarrow>
                    (case evaluate ev (weights m2) calls test_dataset 100 of
                       (Inl e, calls') \<Rightarrow> ((m2, calls'), Inl e)
                     | (Inr mets, calls') \<Rightarrow>
                         compare_loop ev torch_load test_dataset paths m2 calls'
                           (AList.update (path_name path) (to_result mets) results)))))"

text \<open>The \<open>except\<close> block: \<open>self.model.load_state_dict(original_state); raise e\<close>.\<close>

definition restore_and_raise ::
  "state_dict \<Rightarrow> 'w model \<Rightarrow> 'c \<Rightarrow> error \<Rightarrow> ('w model \<times> 'c) \<times> (error + 'r)" where
  "restore_and_raise original_state m calls e =
     (case load_state_dict original_state m of
        (m', Some e') \<Rightarrow> ((m', calls), Inl e')
      | (m', None) \<Rightarrow> ((m', calls), Inl e))"

text \<open>
  \<^verbatim>\<open>
  def compare_models(self, model_paths, test_dataset):
      results = {}
      original_state = self.model.state_dict()
      try:
          for path in model_paths:
              self.model.load_state_dict(torch.load(path))
              metrics = self.evaluate(test_dataset)
              results[Path(path).name] = metrics
          self.model.load_state_dict(original_state)
          if len(results) > 1:
              base = next(iter(results.values()))
              for name, metrics in results.items():
                  results[name]["improvement"] = {
                      k: v - base[k] for k, v in metrics.items()
                  }
          return results
      except Exception as e:
          self.model.load_state_dict(original_state)
          raise e
  \<close>
\<close>

definition compare_models ::
  "((string \<times> 'w) list, 'a) evaluator \<Rightarrow> (string \<Rightarrow> error + (string \<times> 'w) list) \<Rightarrow> 'w model
     \<Rightarrow> 'a eval_calls \<Rightarrow> string list \<Rightarrow> 'a list option
     \<Rightarrow> ('w model \<times> 'a eval_calls) \<times> (error + (string \<times> result) list)" where
  "compare_models ev torch_load m calls model_paths test_dataset =
     (let original_state = state_dict m in
      case compare_loop ev torch_load test_dataset model_paths m calls [] of
        ((m1, calls1), Inl e) \<Rightarrow> restore_and_raise original_state m1 calls1 e
      | ((m1, calls1), Inr results) \<Rightarrow>
          (case load_state_dict original_state m1 of
             (m2, Some e) \<Rightarrow> restore_and_raise original_state m2 calls1 e
           | (m2, None) \<Rightarrow>
               if length results > 1 then
                 (case add_improvements (map fst results) results of
                    Inl e \<Rightarrow> restore_and_raise original_state m2 calls1 e
                  | Inr results' \<Rightarrow> ((m2, calls1), Inr results'))
               else ((m2, calls1), Inr results)))"

text \<open>
  Inputs for evaluating the code: a live model with one parameter \<open>w\<close> holding 1, two
  snapshot files holding 2 and 3, any other path unreadable, and an evaluator whose
  accuracy is a quarter of the live weight.
\<close>

definition live_model :: "real model" where
  "live_model = \<lparr>tensors = (\<lambda>a. 0)(0 := 1), next_addr = 1, parameters = [(''w'', 0)]\<rparr>"

definition snapshot_files :: "string \<Rightarrow> error + (string \<times> real) list" where
  "snapshot_files path =
     (if path = ''data/models/A.pt'' then Inr [(''w'', 2)]
      else if path = ''data/models/B.pt'' then Inr [(''w'', 3)]
      else Inl OSError)"

definition accuracy_of_weight :: "((string \<times> real) list, nat) evaluator" where
  "accuracy_of_weight ws d n = Inr [(''accuracy'', sum_list (map snd ws) / 4)]"

lemma copy_params_self:
  "\<forall>(n, a)\<in>set ps. map_of sd n = Some a \<Longrightarrow> copy_params sd ps ts = ts"
proof (induction ps arbitrary: ts)
  case Nil
  then show ?case by simp
next
  case (Cons p ps)
  obtain n a where p: "p = (n, a)" by (cases p)
  with Cons.prems have "map_of sd n = Some a" and rest: "\<forall>(n, a)\<in>set ps. map_of sd n = Some a"
    by auto
  then have "copy_params sd (p # ps) ts = copy_params sd ps ts"
    using p by simp
  with Cons.IH [OF rest] show ?case by simp
qed

text \<open>
  Why the restoring call restores nothing: \<open>original_state\<close> refers to the live tensors, so
  loading it copies every parameter onto itself, whatever the model holds by then.
\<close>

lemma load_own_state_dict_is_noop:
  assumes "parameters m' = parameters m" and "distinct (map fst (parameters m))"
  shows "load_state_dict (state_dict m) m' = (m', None)"
proof -
  have "\<forall>(n, a)\<in>set (parameters m). map_of (parameters m) n = Some a"
    using assms(2) by auto
  then have "copy_params (parameters m) (parameters m) (tensors m') = tensors m'"
    by (rule copy_params_self)
  with assms(1) show ?thesis
    by (simp add: load_state_dict_def state_dict_def)
qed

text \<open>
  Claim C4 against the code. The live model holds \<open>w = 1\<close>. Comparing the snapshots \<open>A.pt\<close>
  (\<open>w = 2\<close>) and \<open>B.pt\<close> (\<open>w = 3\<close>) returns normally and leaves the model with \<open>w = 3\<close>, the
  last snapshot loaded. Comparing \<open>A.pt\<close> and the unreadable \<open>C.pt\<close> raises and leaves the
  model with \<open>w = 2\<close>. In neither case are the original weights back.
\<close>

theorem compare_models_keeps_loaded_weights:
  "weights live_model = [(''w'', 1)]
 \<and> weights (fst (fst (compare_models accuracy_of_weight snapshot_files live_model []
        [''data/models/A.pt'', ''data/models/B.pt''] (Some [1])))) = [(''w'', 3)]
 \<and> isl (snd (compare_models accuracy_of_weight snapshot_files live_model []
        [''data/models/A.pt'', ''data/models/B.pt''] (Some [1]))) = False
 \<and> weights (fst (fst (compare_models accuracy_of_weight snapshot_files live_model []
        [''data/models/A.pt'', ''data/models/C.pt''] (Some [1])))) = [(''w'', 2)]
 \<and> snd (compare_models accuracy_of_weight snapshot_files live_model []
        [''data/models/A.pt'', ''data/models/C.pt''] (Some [1])) = Inl OSError"
  by (simp add: compare_models_def restore_and_raise_def state_dict_def load_state_dict_def
        weights_def evaluate_def live_model_def snapshot_files_def accuracy_of_weight_def
        to_result_def path_name_def)

text \<open>
  Claim C5, as stated, fails: the loop over \<open>results.items()\<close> does not skip the first
  entry. Comparing \<open>A.pt\<close> and \<open>B.pt\<close> gives the baseline result \<open>A.pt\<close> an
  \<open>"improvement"\<close> mapping too, with the value 0.
\<close>

theorem first_result_gains_improvement_counterexample:
  "snd (compare_models accuracy_of_weight snapshot_files live_model []
        [''data/models/A.pt'', ''data/models/B.pt''] (Some [1]))
     = Inr [(''A.pt'', [(''accuracy'', PyFloat (1 / 2)),
                       (''improvement'', PyDict [(''accuracy'', 0)])]),
            (''B.pt'', [(''accuracy'', PyFloat (3 / 4)),
                       (''improvement'', PyDict [(''accuracy'', 1 / 4)])])]"
  by (simp add: compare_models_def restore_and_raise_def state_dict_def load_state_dict_def
        weights_def evaluate_def live_model_def snapshot_files_def accuracy_of_weight_def
        to_result_def path_name_def)

text \<open>
  The claim's own terms: a result with its \<open>"improvement"\<close> mapping, the per-key signed
  difference between the result's metrics \<open>ms\<close> and the baseline's metrics \<open>base_ms\<close>.
\<close>

definition with_improvement :: "metric_map \<Rightarrow> metric_map \<Rightarrow> result" where
  "with_improvement base_ms ms =
     to_result ms @ [(''improvement'', PyDict (map (\<lambda>(k, v). (k, v - the (map_of base_ms k))) ms))]"

lemma update_absent_appends: "k \<notin> fst ` set xs \<Longrightarrow> AList.update k v xs = xs @ [(k, v)]"
  by (induction xs) auto

lemma update_in_middle:
  "n \<notin> fst ` set pre \<Longrightarrow> AList.update n v (pre @ (n, x) # rest) = pre @ (n, v) # rest"
  by (induction pre) auto

lemma map_of_in_middle:
  "n \<notin> fst ` set pre \<Longrightarrow> map_of (pre @ (n, x) # rest) n = Some x"
  by (induction pre) auto

lemma to_result_keys: "fst ` set (to_result ms) = fst ` set ms"
  by (force simp: to_result_def)

lemma map_of_to_result: "map_of (to_result ms) k = map_option PyFloat (map_of ms k)"
  by (induction ms) (auto simp: to_result_def)

lemma map_of_with_improvement:
  "k \<in> fst ` set bm \<Longrightarrow> map_of (with_improvement bm bm) k = Some (PyFloat (the (map_of bm k)))"
proof -
  assume k: "k \<in> fst ` set bm"
  then obtain y where y: "map_of bm k = Some y"
    by (metis domD dom_map_of_conv_image_fst)
  then have "map_of (to_result bm) k = Some (PyFloat y)"
    by (simp add: map_of_to_result)
  then show ?thesis using y by (simp add: with_improvement_def map_add_Some_iff)
qed

lemma improvement_of_floats:
  "\<forall>k\<in>fst ` set ms. map_of base k = Some (PyFloat (the (map_of bm k)))
     \<Longrightarrow> improvement_of base (to_result ms) = Inr (map (\<lambda>(k, v). (k, v - the (map_of bm k))) ms)"
proof (induction ms)
  case Nil
  then show ?case by (simp add: to_result_def)
next
  case (Cons p ms)
  obtain k v where p: "p = (k, v)" by (cases p)
  from Cons.prems p have here: "map_of base k = Some (PyFloat (the (map_of bm k)))"
    and rest: "\<forall>k\<in>fst ` set ms. map_of base k = Some (PyFloat (the (map_of bm k)))"
    by auto
  from Cons.IH [OF rest] have "improvement_of base (map (\<lambda>(k, v). (k, PyFloat v)) ms)
      = Inr (map (\<lambda>(k, v). (k, v - the (map_of bm k))) ms)"
    by (simp add: to_result_def)
  with here p show ?case by (simp add: to_result_def)
qed

lemma add_improvements_all:
  assumes "distinct (map fst (dnamed @ tnamed))"
    and "dnamed @ tnamed \<noteq> []" and "snd (hd (dnamed @ tnamed)) = bm"
    and "''improvement'' \<notin> fst ` set bm"
    and "\<forall>(n, ms)\<in>set tnamed. ''improvement'' \<notin> fst ` set ms \<and> fst ` set ms \<subseteq> fst ` set bm"
  shows "add_improvements (map fst tnamed)
           (map (\<lambda>(n, ms). (n, with_improvement bm ms)) dnamed
              @ map (\<lambda>(n, ms). (n, to_result ms)) tnamed)
         = Inr (map (\<lambda>(n, ms). (n, with_improvement bm ms)) (dnamed @ tnamed))"
  using assms
proof (induction tnamed arbitrary: dnamed)
  case Nil
  then show ?case by simp
next
  case (Cons p tnamed)
  obtain n ms where p: "p = (n, ms)" by (cases p)
  let ?done = "map (\<lambda>(n, ms). (n, with_improvement bm ms)) dnamed"
  let ?todo = "map (\<lambda>(n, ms). (n, to_result ms)) tnamed"
  let ?results = "?done @ (n, to_result ms) # ?todo"
  from Cons.prems(1) p have fresh: "n \<notin> fst ` set ?done" by force
  from Cons.prems(5) p have noimp: "''improvement'' \<notin> fst ` set ms"
    and sub: "fst ` set ms \<subseteq> fst ` set bm" by auto
  obtain first base others where res: "?results = (first, base) # others"
    by (cases ?results) auto
  have base: "\<forall>k\<in>fst ` set bm. map_of base k = Some (PyFloat (the (map_of bm k)))"
  proof (cases dnamed)
    case Nil
    with Cons.prems(3) p have "ms = bm" by simp
    moreover from Nil res have "base = to_result ms" by simp
    ultimately have "base = to_result bm" by simp
    moreover have "\<forall>k\<in>fst ` set bm. \<exists>y. map_of bm k = Some y"
      by (metis domD dom_map_of_conv_image_fst)
    ultimately show ?thesis by (auto simp: map_of_to_result)
  next
    case (Cons d ds)
    obtain dn dms where d: "d = (dn, dms)" by (cases d)
    with Cons Cons.prems(3) have "dms = bm" by simp
    with Cons d res have "base = with_improvement bm bm" by simp
    then show ?thesis by (simp add: map_of_with_improvement)
  qed
  with sub have "\<forall>k\<in>fst ` set ms. map_of base k = Some (PyFloat (the (map_of bm k)))"
    by blast
  then have imp: "improvement_of base (to_result ms)
      = Inr (map (\<lambda>(k, v). (k, v - the (map_of bm k))) ms)"
    by (rule improvement_of_floats)
  have look: "map_of ?results n = Some (to_result ms)"
    using fresh by (rule map_of_in_middle)
  have upd1: "AList.update ''improvement''
        (PyDict (map (\<lambda>(k, v). (k, v - the (map_of bm k))) ms)) (to_result ms)
      = with_improvement bm ms"
    using noimp by (simp add: update_absent_appends to_result_keys with_improvement_def)
  have upd2: "AList.update n (with_improvement bm ms) ?results
      = ?done @ (n, with_improvement bm ms) # ?todo"
    using fresh by (rule update_in_middle)
  have step: "add_improvements (map fst (p # tnamed)) ?results
      = add_improvements (map fst tnamed) (?done @ (n, with_improvement bm ms) # ?todo)"
    using p res look imp upd1 upd2 by simp
  have d': "distinct (map fst ((dnamed @ [(n, ms)]) @ tnamed))"
    using Cons.prems(1) p by simp
  have ne': "(dnamed @ [(n, ms)]) @ tnamed \<noteq> []" by simp
  have hd': "snd (hd ((dnamed @ [(n, ms)]) @ tnamed)) = bm"
    using Cons.prems(3) p by (cases dnamed) simp_all
  have keys': "\<forall>(n, ms)\<in>set tnamed. ''improvement'' \<notin> fst ` set ms \<and> fst ` set ms \<subseteq> fst ` set bm"
    using Cons.prems(5) by simp
  from Cons.IH [OF d' ne' hd' Cons.prems(4) keys']
  have "add_improvements (map fst tnamed) (?done @ (n, with_improvement bm ms) # ?todo)
      = Inr (map (\<lambda>(n, ms). (n, with_improvement bm ms)) (dnamed @ (n, ms) # tnamed))"
    by simp
  with step p show ?case by simp
qed

lemma alloc_parameters: "parameters (snd (alloc contents m)) = parameters m"
proof (induction contents arbitrary: m)
  case Nil
  then show ?case by simp
next
  case (Cons p contents)
  obtain n v where p: "p = (n, v)" by (cases p)
  let ?m = "m\<lparr>tensors := (tensors m)(next_addr m := v), next_addr := Suc (next_addr m)\<rparr>"
  from Cons.IH [of ?m] p show ?case by (cases "alloc contents ?m") simp
qed

lemma compare_loop_parameters:
  "compare_loop ev torch_load ds paths m calls results = ((m1, calls1), r)
     \<Longrightarrow> parameters m1 = parameters m"
proof (induction paths arbitrary: m calls results)
  case Nil
  then show ?case by simp
next
  case (Cons path paths)
  show ?case
  proof (cases "torch_load path")
    case (Inl e)
    with Cons.prems show ?thesis by simp
  next
    case (Inr contents)
    obtain sd ma where a: "alloc contents m = (sd, ma)" by (cases "alloc contents m")
    then have pa: "parameters ma = parameters m"
      using alloc_parameters [of contents m] by simp
    obtain mb err where l: "load_state_dict sd ma = (mb, err)" by (cases "load_state_dict sd ma")
    then have pb: "parameters mb = parameters m"
      using pa by (auto simp: load_state_dict_def)
    show ?thesis
    proof (cases err)
      case (Some e)
      with Cons.prems Inr a l pb show ?thesis by simp
    next
      case None
      obtain out calls' where e: "evaluate ev (weights mb) calls ds 100 = (out, calls')"
        by (cases "evaluate ev (weights mb) calls ds 100")
      show ?thesis
      proof (cases out)
        case (Inl x)
        with Cons.prems Inr a l None e pb show ?thesis by simp
      next
        case (Inr mets)
        with Cons.prems \<open>torch_load path = Inr contents\<close> a l None e
        have "compare_loop ev torch_load ds paths mb calls'
                (AList.update (path_name path) (to_result mets) results) = ((m1, calls1), r)"
          by simp
        from Cons.IH [OF this] pb show ?thesis by simp
      qed
    qed
  qed
qed

lemma compare_loop_distinct_names:
  "compare_loop ev torch_load ds paths m calls results = (st, Inr results')
     \<Longrightarrow> distinct (map fst results) \<Longrightarrow> distinct (map fst results')"
proof (induction paths arbitrary: m calls results)
  case Nil
  then show ?case by simp
next
  case (Cons path paths)
  from Cons.prems(1) obtain contents where t: "torch_load path = Inr contents"
    by (cases "torch_load path") auto
  obtain sd ma where a: "alloc contents m = (sd, ma)" by (cases "alloc contents m")
  obtain mb err where l: "load_state_dict sd ma = (mb, err)" by (cases "load_state_dict sd ma")
  from Cons.prems(1) t a l have err: "err = None" by (cases err) auto
  obtain out calls' where e: "evaluate ev (weights mb) calls ds 100 = (out, calls')"
    by (cases "evaluate ev (weights mb) calls ds 100")
  from Cons.prems(1) t a l err e obtain mets where o: "out = Inr mets"
    by (cases out) auto
  from Cons.prems(1) t a l err e o
  have "compare_loop ev torch_load ds paths mb calls'
          (AList.update (path_name path) (to_result mets) results) = (st, Inr results')"
    by simp
  moreover have "distinct (map fst (AList.update (path_name path) (to_result mets) results))"
    using Cons.prems(2) by (simp add: distinct_update)
  ultimately show ?case by (rule Cons.IH)
qed

text \<open>
  The same for every input: whatever the paths, the files and the evaluator, the model
  that \<open>compare_models\<close> leaves behind is the one its loading loop left, so the original
  weights are back only if the loop never changed them.
\<close>

lemma compare_models_restores_nothing:
  assumes "distinct (map fst (parameters m))"
  shows "fst (fst (compare_models ev torch_load m calls model_paths test_dataset))
           = fst (fst (compare_loop ev torch_load test_dataset model_paths m calls []))"
proof -
  obtain m1 calls1 r where loop:
    "compare_loop ev torch_load test_dataset model_paths m calls [] = ((m1, calls1), r)"
    by (metis surj_pair)
  from compare_loop_parameters [OF loop] have "parameters m1 = parameters m" .
  from load_own_state_dict_is_noop [OF this assms]
  have noop: "load_state_dict (state_dict m) m1 = (m1, None)" .
  show ?thesis
    by (cases r) (simp_all add: compare_models_def restore_and_raise_def loop noop
                    split: sum.splits)
qed

lemma baseline_improvement_zero:
  "distinct (map fst bm) \<Longrightarrow>
     with_improvement bm bm = to_result bm @ [(''improvement'', PyDict (map (\<lambda>(k, v). (k, 0)) bm))]"
  by (auto simp: with_improvement_def)

text \<open>
  Claim C5, amended. When the loop of \<open>compare_models\<close> ends with more than one result, the
  metric names of every result are among the baseline's and none of them is
  \<open>"improvement"\<close>, then \<open>compare_models\<close> returns, and every result, the first (baseline)
  result included, gains an \<open>"improvement"\<close> mapping whose value at each metric key is that
  result's metric minus the first result's metric at the same key. The baseline's own
  \<open>"improvement"\<close> is therefore 0 at every key.
\<close>

theorem compare_models_improvement_for_every_result:
  assumes "snd (compare_loop ev torch_load test_dataset model_paths m calls [])
             = Inr (map (\<lambda>(n, ms). (n, to_result ms)) named)"
    and "length named > 1"
    and "\<forall>(n, ms)\<in>set named.
           ''improvement'' \<notin> fst ` set ms \<and> fst ` set ms \<subseteq> fst ` set (snd (hd named))"
  shows "snd (compare_models ev torch_load m calls model_paths test_dataset)
           = Inr (map (\<lambda>(n, ms). (n, with_improvement (snd (hd named)) ms)) named)
       \<and> (distinct (map fst (snd (hd named))) \<longrightarrow>
            with_improvement (snd (hd named)) (snd (hd named))
              = to_result (snd (hd named))
                  @ [(''improvement'', PyDict (map (\<lambda>(k, v). (k, 0)) (snd (hd named))))])"
proof
  let ?results = "map (\<lambda>(n, ms). (n, to_result ms)) named"
  obtain m1 calls1 where loop:
    "compare_loop ev torch_load test_dataset model_paths m calls [] = ((m1, calls1), Inr ?results)"
    using assms(1) by (cases "compare_loop ev torch_load test_dataset model_paths m calls []") auto
  from compare_loop_parameters [OF loop] have p: "parameters m1 = parameters m" .
  obtain m2 where restore: "load_state_dict (state_dict m) m1 = (m2, None)"
    using p by (simp add: load_state_dict_def state_dict_def)
  have names: "map fst ?results = map fst named"
    by (induction named) auto
  from compare_loop_distinct_names [OF loop] have "distinct (map fst ?results)" by simp
  then have d: "distinct (map fst ([] @ named))" by (simp only: names append_Nil)
  from assms(2) have ne: "[] @ named \<noteq> []" by auto
  have keys: "''improvement'' \<notin> fst ` set (snd (hd named))"
  proof -
    from assms(2) obtain x xs where "named = x # xs" by (cases named) auto
    with assms(3) show ?thesis by (cases x) auto
  qed
  from add_improvements_all [of "[]" named "snd (hd named)", OF d ne _ keys assms(3)]
  have "add_improvements (map fst named) ?results
      = Inr (map (\<lambda>(n, ms). (n, with_improvement (snd (hd named)) ms)) named)"
    by simp
  then have "add_improvements (map fst ?results) ?results
      = Inr (map (\<lambda>(n, ms). (n, with_improvement (snd (hd named)) ms)) named)"
    by (simp only: names)
  with loop restore assms(2)
  show "snd (compare_models ev torch_load m calls model_paths test_dataset)
           = Inr (map (\<lambda>(n, ms). (n, with_improvement (snd (hd named)) ms)) named)"
    by (simp add: compare_models_def)
next
  show "distinct (map fst (snd (hd named))) \<longrightarrow>
            with_improvement (snd (hd named)) (snd (hd named))
              = to_result (snd (hd named))
                  @ [(''improvement'', PyDict (map (\<lambda>(k, v). (k, 0)) (snd (hd named))))]"
    by (simp add: baseline_improvement_zero)
qed

theorem compare_models_improvement_for_every_result_witness:
  "snd (compare_models accuracy_of_weight snapshot_files live_model []
        [''data/models/A.pt'', ''data/models/B.pt''] (Some [1]))
     = Inr [(''A.pt'', with_improvement [(''accuracy'', 1 / 2)] [(''accuracy'', 1 / 2)]),
            (''B.pt'', with_improvement [(''accuracy'', 1 / 2)] [(''accuracy'', 3 / 4)])]
 \<and> with_improvement [(''accuracy'', 1 / 2)] [(''accuracy'', 3 / 4)]
     = [(''accuracy'', PyFloat (3 / 4)), (''improvement'', PyDict [(''accuracy'', 1 / 4)])]
 \<and> with_improvement [(''accuracy'', 1 / 2)] [(''accuracy'', 1 / 2)]
     = [(''accuracy'', PyFloat (1 / 2)), (''improvement'', PyDict [(''accuracy'', 0)])]"
proof -
  let ?named = "[(''A.pt'', [(''accuracy'', 1 / 2 :: real)]), (''B.pt'', [(''accuracy'', 3 / 4)])]"
  have h1: "snd (compare_loop accuracy_of_weight snapshot_files (Some [1])
               [''data/models/A.pt'', ''data/models/B.pt''] live_model [] [])
      = Inr (map (\<lambda>(n, ms). (n, to_result ms)) ?named)"
    by (simp add: load_state_dict_def weights_def evaluate_def live_model_def
          snapshot_files_def accuracy_of_weight_def to_result_def path_name_def)
  have h2: "length ?named > 1" by simp
  have h3: "\<forall>(n, ms)\<in>set ?named.
           ''improvement'' \<notin> fst ` set ms \<and> fst ` set ms \<subseteq> fst ` set (snd (hd ?named))"
    by simp
  from compare_models_improvement_for_every_result [OF h1 h2 h3]
  show ?thesis by (simp add: with_improvement_def to_result_def)
qed

section \<open>\<open>Sin.train\<close>\<close>

text \<open>
  The collaborators of a training session. \<open>'m\<close> is the state that training changes (the
  model's parameters together with the optimizer and the learning-rate schedule), \<open>'a\<close> a
  training sample, \<open>'b\<close> a batch, \<open>'v\<close> a validation sample.
  \<^item> \<open>get_data_loader\<close>: the batches the trainer yields for the training set;
  \<^item> \<open>train_step\<close>: lines 128 to 132 for one batch (\<open>zero_grad\<close>, \<open>train_step\<close>, \<open>backward\<close>,
    \<open>optimizer.step\<close>): the scalar \<open>loss.item()\<close> and the state afterwards, or an exception;
  \<^item> \<open>scheduler_step\<close>: \<open>scheduler.step()\<close>;
  \<^item> \<open>write_log\<close> and \<open>savefig\<close>: writing the monitor's log file and its image;
  \<^item> \<open>save\<close>: \<open>Sin.save\<close>.
\<close>

record ('m, 'a, 'b, 'v) collaborators =
  data_loaders :: "'a loaders"
  get_data_loader :: "'a concat_dataset \<Rightarrow> 'b list"
  train_step :: "'m \<Rightarrow> 'b \<Rightarrow> error + real \<times> 'm"
  scheduler_step :: "'m \<Rightarrow> 'm"
  evaluator :: "('m, 'v) evaluator"
  write_log :: "training_log \<Rightarrow> error option"
  savefig :: "training_log \<Rightarrow> error option"
  save :: "'m \<Rightarrow> error option"

text \<open>What a \<open>Sin\<close> object holds that training reads or changes.\<close>

record ('m, 'v) sin =
  model :: 'm
  monitor :: training_log
  evaluator_calls :: "'v eval_calls"






















section \<open>\<open>TrainingMonitor.__init__\<close>\<close>

text \<open>
  The attributes a \<open>TrainingMonitor\<close> object has when line 15 runs: the five methods that
  the class body defines (the class has no base class) and the two instance attributes
  assigned on lines 10 and 11. There is no \<open>reset_logs\<close> among them, and no statement of
  the class assigns \<open>self.current_log\<close>.
\<close>

definition TrainingMonitor_attributes :: "string list" where
  "TrainingMonitor_attributes =
     [''__init__'', ''log_epoch'', ''_save_log'', ''_plot_progress'', ''get_best_epoch'',
      ''logger'', ''log_dir'']"

text \<open>
  \<^verbatim>\<open>
  def __init__(self, log_dir="data/logs"):
      self.logger = logging.getLogger(__name__)
      self.log_dir = Path(log_dir)
      try:
          self.log_dir.mkdir(exist_ok=True, parents=True)
          self.reset_logs()
          self.logger.info("Training monitor initialized")
      except Exception as e:
          self.logger.critical(f"Failed to initialize monitor: {str(e)}")
          raise
  \<close>
  \<open>mkdir\<close> is the outcome of creating the directory. Looking up an attribute the object
  does not have raises \<open>AttributeError\<close>; \<open>call\<close> stands for what calling an attribute that
  exists would do. The constructor yields the monitor's log or the exception it raises.
\<close>

definition TrainingMonitor_init ::
  "error option \<Rightarrow> (string \<Rightarrow> error + training_log) \<Rightarrow> error + training_log" where
  "TrainingMonitor_init mkdir call =
     (case mkdir of
        Some e \<Rightarrow> Inl e
      | None \<Rightarrow>
          if ''reset_logs'' \<in> set TrainingMonitor_attributes then call ''reset_logs''
          else Inl (AttributeError ''reset_logs''))"

text \<open>
  Claim C1 against the code. Constructing a \<open>TrainingMonitor\<close> never yields a monitor:
  when the directory can be created, the call \<open>self.reset_logs()\<close> raises
  \<open>AttributeError\<close>, which the handler logs and raises again; when it cannot, that
  exception is raised. No log is reset, written or held afterwards.
\<close>

theorem TrainingMonitor_init_raises:
  "TrainingMonitor_init None call = Inl (AttributeError ''reset_logs'')
 \<and> isl (TrainingMonitor_init mkdir call)"
  by (simp add: TrainingMonitor_init_def TrainingMonitor_attributes_def split: option.splits)

end
